theory Spec2Isabelle
  imports Complex_Main "HOL-Library.AList"
begin

section \<open>JavaScript values\<close>

text \<open>
  The view manager of \<^verbatim>\<open>modules/core/src/views/view-manager.js\<close> stores and tests
  plain JavaScript values: its two dirty flags are \<^verbatim>\<open>false\<close>, \<^verbatim>\<open>true\<close> or a reason
  string, its view state is an object, its size is a pair of numbers. A finite number is
  embedded as its real value; the three non-finite numbers are constructors of their own.
  An object is the list of its own properties in insertion order. \<open>JHost\<close> stands for a
  host object that the manager only passes on (the event manager, a callback, a controller
  class), \<open>JBound\<close> for \<^verbatim>\<open>this._onViewStateChange.bind(this, id)\<close>; the bound method
  runs only when a controller calls it back, and is not part of the model.
  Properties inherited from \<^verbatim>\<open>Object.prototype\<close> and the indexed characters of a string are
  not modelled: a property read sees own properties of objects only.
\<close>

datatype jsval =
    JUndefined
  | JNull
  | JBool bool
  | JNum real
  | JNaN
  | JPosInf
  | JNegInf
  | JStr string
  | JObj "(string \<times> jsval) list"
  | JHost nat
  | JBound string jsval

text \<open>JavaScript's ToBoolean.\<close>

fun truthy :: "jsval \<Rightarrow> bool" where
  "truthy JUndefined = False"
| "truthy JNull = False"
| "truthy (JBool b) = b"
| "truthy (JNum r) = (r \<noteq> 0)"
| "truthy JNaN = False"
| "truthy JPosInf = True"
| "truthy JNegInf = True"
| "truthy (JStr s) = (s \<noteq> [])"
| "truthy (JObj kvs) = True"
| "truthy (JHost n) = True"
| "truthy (JBound f a) = True"

text \<open>The operator \<^verbatim>\<open>a || b\<close>.\<close>

definition js_or :: "jsval \<Rightarrow> jsval \<Rightarrow> jsval" where
  "js_or a b = (if truthy a then a else b)"


text \<open>The property read \<^verbatim>\<open>obj[key]\<close>: \<^verbatim>\<open>undefined\<close> for a missing key.\<close>

fun get_prop :: "jsval \<Rightarrow> string \<Rightarrow> jsval" where
  "get_prop (JObj kvs) key = (case map_of kvs key of Some v \<Rightarrow> v | None \<Rightarrow> JUndefined)"
| "get_prop v key = JUndefined"

text \<open>
  \<^verbatim>\<open>Object.assign(target, ...sources)\<close>: every own property of every source, in order,
  is written to the target; a source that is not an object contributes nothing.
\<close>

fun own_props :: "jsval \<Rightarrow> (string \<times> jsval) list" where
  "own_props (JObj kvs) = kvs"
| "own_props v = []"

definition assign_one :: "(string \<times> jsval) list \<Rightarrow> jsval \<Rightarrow> (string \<times> jsval) list" where
  "assign_one target source = foldl (\<lambda>t (k, v). AList.update k v t) target (own_props source)"

definition assign :: "(string \<times> jsval) list \<Rightarrow> jsval list \<Rightarrow> (string \<times> jsval) list" where
  "assign target sources = foldl assign_one target sources"

section \<open>The collaborators: Viewport, View, Controller\<close>

text \<open>
  A viewport is read through \<^verbatim>\<open>id\<close>, \<^verbatim>\<open>x\<close>, \<^verbatim>\<open>y\<close>, \<^verbatim>\<open>width\<close>, \<^verbatim>\<open>height\<close> and four
  methods. Its id may be missing (\<open>None\<close>); the empty string is falsy as well.
\<close>

record viewport =
  vp_id :: "string option"
  vp_x :: real
  vp_y :: real
  vp_width :: real
  vp_height :: real
  vp_contains :: "jsval \<Rightarrow> jsval \<Rightarrow> bool"
  vp_containsPixel :: "jsval \<Rightarrow> jsval \<Rightarrow> bool"
  vp_project :: "jsval \<Rightarrow> jsval \<Rightarrow> jsval"
  vp_unproject :: "jsval \<Rightarrow> jsval"

text \<open>
  A view descriptor is read through \<^verbatim>\<open>id\<close>, \<^verbatim>\<open>controller\<close>, \<^verbatim>\<open>defaultState\<close> and
  \<^verbatim>\<open>makeViewport({width, height, viewState})\<close>.
\<close>

record view =
  view_id :: string
  controller :: jsval
  defaultState :: jsval
  makeViewport :: "real \<Rightarrow> real \<Rightarrow> jsval \<Rightarrow> viewport"

text \<open>
  What the file imports and the source tree does not hold is a parameter of the model:
  \<^verbatim>\<open>deepEqual(a, b)\<close>, the method \<^verbatim>\<open>a.equals(b)\<close> of a view, and
  \<^verbatim>\<open>new View({viewportInstance: v})\<close>.
\<close>

record modules =
  deepEqual :: "jsval \<Rightarrow> jsval \<Rightarrow> bool"
  View_equals :: "view \<Rightarrow> view \<Rightarrow> bool"
  View_new :: "viewport \<Rightarrow> view"

text \<open>
  A controller is an object with identity and state of its own. The model names it by a
  reference and records, in order, every call the manager makes on the world outside:
  a construction, \<^verbatim>\<open>controller.setProps(props)\<close>, \<^verbatim>\<open>controller.finalize()\<close>, and
  \<^verbatim>\<open>log.warn(message)()\<close>.
\<close>

datatype event =
    NewController nat jsval
  | ControllerSetProps nat jsval
  | ControllerFinalize nat
  | LogWarn string

datatype error = AssertionFailed

datatype completion = Normal | Throw error

section \<open>The state of a ViewManager\<close>

text \<open>
  The fields of the sealed object, in the order of the constructor; a member
  \<^verbatim>\<open>_name\<close> of the source is \<open>priv_name\<close> here. The last two fields are the world outside:
  the next unused controller reference and the calls made so far.
\<close>

record view_manager =
  views :: "view list"
  width :: real
  height :: real
  viewState :: jsval
  controllers :: "(string \<times> nat) list"
  priv_viewports :: "viewport list"
  priv_viewportMap :: "(string \<times> viewport) list"
  priv_needsRedraw :: jsval
  priv_needsUpdate :: jsval
  priv_eventManager :: jsval
  priv_onViewStateChange :: jsval
  priv_onInteractiveStateChange :: jsval
  next_ref :: nat
  trace :: "event list"

text \<open>
  The argument of \<^verbatim>\<open>setProps\<close> and of the constructor. \<open>None\<close> is a key that is not
  \<^verbatim>\<open>in props\<close>. The \<^verbatim>\<open>views\<close> value is a possibly nested array whose entries are
  views, bare viewports, or falsy.
\<close>

datatype view_input =
    Falsy
  | IsView view
  | IsViewport viewport
  | Array "view_input list"

record props =
  p_views :: "view_input option"
  p_viewState :: "jsval option"
  p_width :: "jsval option"
  p_height :: "jsval option"
  p_eventManager :: jsval
  p_onViewStateChange :: jsval
  p_onInteractiveStateChange :: jsval

section \<open>Dirty flags\<close>

text \<open>\<^verbatim>\<open>needsRedraw({clearRedrawFlags = true} = {})\<close>; \<open>None\<close> is the missing option.\<close>

definition needsRedraw :: "bool option \<Rightarrow> view_manager \<Rightarrow> jsval \<times> view_manager" where
  "needsRedraw opt s =
     (let clearRedrawFlags = (case opt of None \<Rightarrow> True | Some b \<Rightarrow> b);
          redraw = priv_needsRedraw s
      in (redraw, if clearRedrawFlags then s\<lparr>priv_needsRedraw := JBool False\<rparr> else s))"

definition setNeedsRedraw :: "jsval \<Rightarrow> view_manager \<Rightarrow> view_manager" where
  "setNeedsRedraw reason s = s\<lparr>priv_needsRedraw := js_or (priv_needsRedraw s) reason\<rparr>"

definition setNeedsUpdate :: "jsval \<Rightarrow> view_manager \<Rightarrow> view_manager" where
  "setNeedsUpdate reason s =
     s\<lparr>priv_needsUpdate := js_or (priv_needsUpdate s) reason,
       priv_needsRedraw := js_or (priv_needsRedraw s) reason\<rparr>"

section \<open>Queries\<close>

text \<open>\<^verbatim>\<open>getViewports(rect)\<close>: with a truthy \<^verbatim>\<open>rect\<close>, the viewports that contain it.\<close>

definition getViewports :: "jsval \<Rightarrow> view_manager \<Rightarrow> viewport list" where
  "getViewports rect s =
     (if truthy rect
      then filter (\<lambda>viewport. vp_containsPixel viewport rect JUndefined) (priv_viewports s)
      else priv_viewports s)"


text \<open>\<^verbatim>\<open>getViewState(viewId)\<close> is \<^verbatim>\<open>this.viewState[viewId] || this.viewState\<close>.\<close>

definition getViewState :: "string \<Rightarrow> view_manager \<Rightarrow> jsval" where
  "getViewState viewId s = js_or (get_prop (viewState s) viewId) (viewState s)"

text \<open>
  The loop \<^verbatim>\<open>for (let i = viewports.length - 1; i >= 0; --i)\<close> of \<^verbatim>\<open>project\<close>: the
  last argument is \<open>i + 1\<close>, so that \<open>0\<close> is the exit of the loop.
\<close>

fun project_loop :: "viewport list \<Rightarrow> jsval \<Rightarrow> jsval \<Rightarrow> nat \<Rightarrow> jsval" where
  "project_loop viewports xyz opts 0 = JNull"
| "project_loop viewports xyz opts (Suc i) =
     (let viewport = viewports ! i
      in if vp_contains viewport xyz opts then vp_project viewport xyz opts
         else project_loop viewports xyz opts i)"

text \<open>
  The default parameter \<^verbatim>\<open>opts = {topLeft: true}\<close> of \<^verbatim>\<open>project\<close> replaces
  \<^verbatim>\<open>undefined\<close>.
\<close>

definition project_opts :: "jsval \<Rightarrow> jsval" where
  "project_opts opts =
     (case opts of JUndefined \<Rightarrow> JObj [(''topLeft'', JBool True)] | _ \<Rightarrow> opts)"

text \<open>\<^verbatim>\<open>project(xyz, opts = {topLeft: true})\<close>.\<close>

definition project :: "jsval \<Rightarrow> jsval \<Rightarrow> view_manager \<Rightarrow> jsval" where
  "project xyz opts s =
     (let viewports = getViewports JUndefined s
      in project_loop viewports xyz (project_opts opts) (length viewports))"

fun unproject_loop :: "viewport list \<Rightarrow> jsval \<Rightarrow> jsval \<Rightarrow> nat \<Rightarrow> jsval" where
  "unproject_loop viewports xyz opts 0 = JNull"
| "unproject_loop viewports xyz opts (Suc i) =
     (let viewport = viewports ! i
      in if vp_containsPixel viewport xyz opts then vp_unproject viewport xyz
         else unproject_loop viewports xyz opts i)"

definition unproject :: "jsval \<Rightarrow> jsval \<Rightarrow> view_manager \<Rightarrow> jsval" where
  "unproject xyz opts s =
     (let viewports = getViewports JUndefined s
      in unproject_loop viewports xyz opts (length viewports))"

section \<open>Property updates\<close>

text \<open>
  Modelled from the spec: \<^verbatim>\<open>assert\<close> of \<^verbatim>\<open>utils/assert\<close> is not in the source tree. A
  failed assertion "fails fast (assertion failure)": it throws, which is the exception
  \<open>AssertionFailed\<close> here.

  \<^verbatim>\<open>_setSize(width, height)\<close>: the asserted condition
  \<^verbatim>\<open>Number.isFinite(width) && Number.isFinite(height)\<close> holds exactly when both arguments
  are \<open>JNum\<close>.
\<close>

definition priv_setSize :: "jsval \<Rightarrow> jsval \<Rightarrow> view_manager \<Rightarrow> error + view_manager" where
  "priv_setSize w h s =
     (case (w, h) of
        (JNum w1, JNum h1) \<Rightarrow>
          Inr (if w1 \<noteq> width s \<or> h1 \<noteq> height s
               then setNeedsUpdate (JStr ''Size changed'') (s\<lparr>width := w1, height := h1\<rparr>)
               else s)
      | _ \<Rightarrow> Inl AssertionFailed)"

text \<open>
  \<^verbatim>\<open>_diffViews(newViews, oldViews)\<close>: \<^verbatim>\<open>some\<close> runs over the indices of \<^verbatim>\<open>newViews\<close>.
\<close>

definition priv_diffViews :: "modules \<Rightarrow> view list \<Rightarrow> view list \<Rightarrow> bool" where
  "priv_diffViews I newViews oldViews =
     (if length newViews \<noteq> length oldViews then True
      else list_ex (\<lambda>i. \<not> View_equals I (newViews ! i) (oldViews ! i)) [0..<length newViews])"

text \<open>
  Modelled from the spec: \<^verbatim>\<open>flatten\<close> of \<^verbatim>\<open>utils/flatten\<close> is not in the source tree. With
  \<^verbatim>\<open>{filter: Boolean}\<close> it flattens a possibly nested sequence to a flat ordered one and
  drops the falsy entries.
\<close>

fun flatten :: "view_input \<Rightarrow> (view + viewport) list" where
  "flatten Falsy = []"
| "flatten (IsView v) = [Inl v]"
| "flatten (IsViewport vp) = [Inr vp]"
| "flatten (Array xs) = concat (map flatten xs)"

text \<open>
  The first statement of \<^verbatim>\<open>_setViews\<close>: the flattened input, with every bare viewport
  wrapped in a view.
\<close>

definition wrapped_views :: "modules \<Rightarrow> view_input \<Rightarrow> view list" where
  "wrapped_views I input =
     map (\<lambda>view. case view of Inr vp \<Rightarrow> View_new I vp | Inl v \<Rightarrow> v) (flatten input)"

text \<open>\<^verbatim>\<open>_setViews(views)\<close>.\<close>

definition priv_setViews :: "modules \<Rightarrow> view_input \<Rightarrow> view_manager \<Rightarrow> view_manager" where
  "priv_setViews I input s =
     (let views1 = wrapped_views I input;
          viewsChanged = priv_diffViews I views1 (views s);
          s1 = (if viewsChanged then setNeedsUpdate (JStr ''views changed'') s else s)
      in s1\<lparr>views := views1\<rparr>)"

text \<open>\<^verbatim>\<open>_setViewState(viewState)\<close>.\<close>

definition priv_setViewState :: "modules \<Rightarrow> jsval \<Rightarrow> view_manager \<Rightarrow> view_manager" where
  "priv_setViewState I vs s =
     (if truthy vs then
        (let viewStateChanged = (\<not> deepEqual I vs (viewState s));
             s1 = (if viewStateChanged then setNeedsUpdate (JStr ''viewState changed'') s
                   else s)
         in s1\<lparr>viewState := vs\<rparr>)
      else s\<lparr>trace := trace s @ [LogWarn ''setting null viewState'']\<rparr>)"

section \<open>Rebuilding the viewports\<close>

text \<open>\<^verbatim>\<open>_createController(props)\<close>: the new controller gets the next reference.\<close>

definition priv_createController :: "jsval \<Rightarrow> view_manager \<Rightarrow> nat \<times> view_manager" where
  "priv_createController cprops s =
     (let c = next_ref s;
          args = JObj (assign
                   [(''eventManager'', priv_eventManager s),
                    (''onViewStateChange'', JBound ''_onViewStateChange'' (get_prop cprops ''id'')),
                    (''onStateChange'', priv_onInteractiveStateChange s)]
                   [cprops])
      in (c, s\<lparr>next_ref := Suc c, trace := trace s @ [NewController c args]\<rparr>))"

text \<open>The merged properties \<^verbatim>\<open>controllerProps\<close> of one view.\<close>

definition controllerProps :: "view \<Rightarrow> jsval \<Rightarrow> viewport \<Rightarrow> jsval" where
  "controllerProps view vs viewport =
     JObj (assign []
       [controller view, defaultState view, vs,
        JObj [(''id'', JStr (view_id view)),
              (''x'', JNum (vp_x viewport)),
              (''y'', JNum (vp_y viewport)),
              (''width'', JNum (vp_width viewport)),
              (''height'', JNum (vp_height viewport))]])"

text \<open>
  The callback \<^verbatim>\<open>view => {...}\<close> of \<^verbatim>\<open>views.map\<close> in \<^verbatim>\<open>_rebuildViewportsFromViews\<close>.
  It closes over \<^verbatim>\<open>width\<close>, \<^verbatim>\<open>height\<close> and \<^verbatim>\<open>oldControllers\<close>, and writes
  \<^verbatim>\<open>this.controllers\<close>.
\<close>

definition view_callback ::
  "real \<Rightarrow> real \<Rightarrow> (string \<times> nat) list \<Rightarrow> view \<Rightarrow> view_manager \<Rightarrow> viewport \<times> view_manager"
where
  "view_callback w h oldControllers view s =
     (let vs = getViewState (view_id view) s;
          viewport = makeViewport view w h vs;
          s1 = (if truthy (controller view) then
                  (let cprops = controllerProps view vs viewport;
                       (c, s0) = (case map_of oldControllers (view_id view) of
                                    Some c \<Rightarrow> (c, s\<lparr>trace := trace s @ [ControllerSetProps c cprops]\<rparr>)
                                  | None \<Rightarrow> priv_createController cprops s)
                   in s0\<lparr>controllers := AList.update (view_id view) c (controllers s0)\<rparr>)
                else s)
      in (viewport, s1))"

text \<open>\<^verbatim>\<open>views.map(callback)\<close>: the callback runs on the views in order.\<close>

fun map_views ::
  "(view \<Rightarrow> view_manager \<Rightarrow> viewport \<times> view_manager) \<Rightarrow> view list \<Rightarrow> view_manager
   \<Rightarrow> viewport list \<times> view_manager"
where
  "map_views f [] s = ([], s)"
| "map_views f (view # rest) s =
     (let (viewport, s1) = f view s;
          (viewports, s2) = map_views f rest s1
      in (viewport # viewports, s2))"

text \<open>The loop \<^verbatim>\<open>for (const id in oldControllers)\<close> that removes unused controllers.\<close>

fun finalize_unused :: "string list \<Rightarrow> (string \<times> nat) list \<Rightarrow> view_manager \<Rightarrow> view_manager" where
  "finalize_unused [] oldControllers s = s"
| "finalize_unused (k # ks) oldControllers s =
     finalize_unused ks oldControllers
       (if map_of (controllers s) k = None then
          (case map_of oldControllers k of
             Some c \<Rightarrow> s\<lparr>trace := trace s @ [ControllerFinalize c]\<rparr>
           | None \<Rightarrow> s)
        else s)"

text \<open>\<^verbatim>\<open>_buildViewportMap()\<close>.\<close>

definition priv_buildViewportMap :: "view_manager \<Rightarrow> view_manager" where
  "priv_buildViewportMap s =
     s\<lparr>priv_viewportMap :=
         foldl (\<lambda>m viewport.
                  case vp_id viewport of
                    None \<Rightarrow> m
                  | Some i \<Rightarrow>
                      if i \<noteq> [] then
                        AList.update i (case map_of m i of Some v \<Rightarrow> v | None \<Rightarrow> viewport) m
                      else m)
               [] (priv_viewports s)\<rparr>"

text \<open>\<^verbatim>\<open>_rebuildViewportsFromViews()\<close>.\<close>

definition priv_rebuildViewportsFromViews :: "view_manager \<Rightarrow> view_manager" where
  "priv_rebuildViewportsFromViews s =
     (let updateReason = priv_needsUpdate s
      in if truthy updateReason then
           (let oldControllers = controllers s;
                s1 = s\<lparr>controllers := []\<rparr>;
                (viewports, s2) = map_views (view_callback (width s) (height s) oldControllers)
                                    (views s) s1;
                s3 = s2\<lparr>priv_viewports := viewports\<rparr>;
                s4 = finalize_unused (map fst oldControllers) oldControllers s3;
                s5 = priv_buildViewportMap s4
            in s5\<lparr>priv_needsUpdate := JBool False\<rparr>)
         else s)"

section \<open>The public mutators\<close>

text \<open>\<^verbatim>\<open>props.key\<close>: \<^verbatim>\<open>undefined\<close> when the key is missing.\<close>

fun read_key :: "jsval option \<Rightarrow> jsval" where
  "read_key None = JUndefined"
| "read_key (Some v) = v"

text \<open>
  \<^verbatim>\<open>setProps(props)\<close>. When \<^verbatim>\<open>_setSize\<close> throws, the views and the view state have
  been written already and the rebuild is not reached.
\<close>

definition setProps :: "modules \<Rightarrow> props \<Rightarrow> view_manager \<Rightarrow> completion \<times> view_manager" where
  "setProps I props s =
     (let s1 = (case p_views props of Some v \<Rightarrow> priv_setViews I v s | None \<Rightarrow> s);
          s2 = (case p_viewState props of Some v \<Rightarrow> priv_setViewState I v s1 | None \<Rightarrow> s1)
      in if p_width props \<noteq> None \<or> p_height props \<noteq> None then
           (case priv_setSize (read_key (p_width props)) (read_key (p_height props)) s2 of
              Inl e \<Rightarrow> (Throw e, s2)
            | Inr s3 \<Rightarrow> (Normal, priv_rebuildViewportsFromViews s3))
         else (Normal, priv_rebuildViewportsFromViews s2))"

text \<open>The constructor, in a world where no controller exists yet.\<close>

definition new_ViewManager :: "modules \<Rightarrow> props \<Rightarrow> completion \<times> view_manager" where
  "new_ViewManager I props =
     setProps I props
       \<lparr>views = [], width = 100, height = 100, viewState = JObj [], controllers = [],
        priv_viewports = [], priv_viewportMap = [],
        priv_needsRedraw = JStr ''Initial render'', priv_needsUpdate = JBool True,
        priv_eventManager = p_eventManager props,
        priv_onViewStateChange = p_onViewStateChange props,
        priv_onInteractiveStateChange = p_onInteractiveStateChange props,
        next_ref = 0, trace = []\<rparr>"

text \<open>\<^verbatim>\<open>finalize()\<close>.\<close>

definition finalize :: "view_manager \<Rightarrow> view_manager" where
  "finalize s =
     s\<lparr>trace := trace s @ map (\<lambda>(key, c). ControllerFinalize c) (controllers s),
       controllers := []\<rparr>"

text \<open>
  The states a caller can observe: the result of the constructor, and every state that
  the public methods lead to from there, also after a \<^verbatim>\<open>setProps\<close> that threw.
\<close>

inductive reachable :: "modules \<Rightarrow> view_manager \<Rightarrow> bool" for I :: modules where
  r_new: "new_ViewManager I props = (Normal, s) \<Longrightarrow> reachable I s"
| r_setProps: "reachable I s \<Longrightarrow> setProps I props s = (r, t) \<Longrightarrow> reachable I t"
| r_needsRedraw: "reachable I s \<Longrightarrow> needsRedraw opt s = (v, t) \<Longrightarrow> reachable I t"
| r_setNeedsRedraw: "reachable I s \<Longrightarrow> reachable I (setNeedsRedraw reason s)"
| r_setNeedsUpdate: "reachable I s \<Longrightarrow> reachable I (setNeedsUpdate reason s)"
| r_finalize: "reachable I s \<Longrightarrow> reachable I (finalize s)"

section \<open>Sequences of flag calls, invariants, and example inputs\<close>

text \<open>A sequence of calls of the two sticky setters, run in order.\<close>

datatype flag_call = SetNeedsRedraw jsval | SetNeedsUpdate jsval

fun run_calls :: "flag_call list \<Rightarrow> view_manager \<Rightarrow> view_manager" where
  "run_calls [] s = s"
| "run_calls (SetNeedsRedraw reason # cs) s = run_calls cs (setNeedsRedraw reason s)"
| "run_calls (SetNeedsUpdate reason # cs) s = run_calls cs (setNeedsUpdate reason s)"


text \<open>
  The invariant behind the count of viewports: either a rebuild is pending, or there is
  one viewport per view.
\<close>

definition count_inv :: "view_manager \<Rightarrow> bool" where
  "count_inv s =
     (truthy (priv_needsUpdate s) \<or> length (priv_viewports s) = length (views s))"


text \<open>
  Example collaborators. Two views are equal when id and controller configuration agree;
  a wrapped viewport is a view that returns it; a viewport contains every point and
  answers a projection with its own id, which tells who answered.
\<close>

definition ex_modules :: modules where
  "ex_modules =
     \<lparr>deepEqual = (\<lambda>a b. a = b),
      View_equals = (\<lambda>a b. view_id a = view_id b \<and> controller a = controller b),
      View_new = (\<lambda>vp. \<lparr>view_id = ''view'', controller = JUndefined, defaultState = JUndefined,
                         makeViewport = (\<lambda>w h vs. vp)\<rparr>)\<rparr>"

definition ex_viewport :: "string \<Rightarrow> real \<Rightarrow> real \<Rightarrow> viewport" where
  "ex_viewport i w h =
     \<lparr>vp_id = Some i, vp_x = 0, vp_y = 0, vp_width = w, vp_height = h,
      vp_contains = (\<lambda>xyz opts. True),
      vp_containsPixel = (\<lambda>xyz opts. True),
      vp_project = (\<lambda>xyz opts. JStr i),
      vp_unproject = (\<lambda>xyz. JStr i)\<rparr>"

definition ex_view :: "string \<Rightarrow> view" where
  "ex_view i =
     \<lparr>view_id = i, controller = JObj [(''type'', JHost 0)], defaultState = JUndefined,
      makeViewport = (\<lambda>w h vs. ex_viewport i w h)\<rparr>"

text \<open>The empty argument \<^verbatim>\<open>{}\<close>.\<close>

definition ex_props :: props where
  "ex_props =
     \<lparr>p_views = None, p_viewState = None, p_width = None, p_height = None,
      p_eventManager = JUndefined, p_onViewStateChange = JUndefined,
      p_onInteractiveStateChange = JUndefined\<rparr>"

text \<open>A manager constructed with the two views \<^verbatim>\<open>a\<close> and \<^verbatim>\<open>b\<close>.\<close>

definition ex_ab :: view_manager where
  "ex_ab = snd (new_ViewManager ex_modules
              (ex_props\<lparr>p_views := Some (Array [IsView (ex_view ''a''), IsView (ex_view ''b'')])\<rparr>))"

text \<open>The state after the first two statements of \<^verbatim>\<open>setProps\<close>, before the size.\<close>

definition after_setters :: "modules \<Rightarrow> props \<Rightarrow> view_manager \<Rightarrow> view_manager" where
  "after_setters I p s =
     (let s1 = (case p_views p of Some v \<Rightarrow> priv_setViews I v s | None \<Rightarrow> s)
      in case p_viewState p of Some v \<Rightarrow> priv_setViewState I v s1 | None \<Rightarrow> s1)"





section \<open>Basic lemmas\<close>


lemma js_or_truthy: "truthy a \<Longrightarrow> js_or a b = a"
  by (simp add: js_or_def)

section \<open>What the loops of the rebuild leave alone\<close>

lemma view_callback_frame:
  "views (snd (view_callback w h old v s)) = views s
   \<and> width (snd (view_callback w h old v s)) = width s
   \<and> height (snd (view_callback w h old v s)) = height s
   \<and> viewState (snd (view_callback w h old v s)) = viewState s
   \<and> priv_viewports (snd (view_callback w h old v s)) = priv_viewports s
   \<and> priv_viewportMap (snd (view_callback w h old v s)) = priv_viewportMap s
   \<and> priv_needsRedraw (snd (view_callback w h old v s)) = priv_needsRedraw s
   \<and> priv_needsUpdate (snd (view_callback w h old v s)) = priv_needsUpdate s
   \<and> priv_eventManager (snd (view_callback w h old v s)) = priv_eventManager s
   \<and> priv_onViewStateChange (snd (view_callback w h old v s)) = priv_onViewStateChange s
   \<and> priv_onInteractiveStateChange (snd (view_callback w h old v s))
       = priv_onInteractiveStateChange s"
  by (simp add: view_callback_def Let_def priv_createController_def split: option.split)

lemma map_views_Cons [simp]:
  "map_views f (v # rest) s =
     (fst (f v s) # fst (map_views f rest (snd (f v s))), snd (map_views f rest (snd (f v s))))"
  by (simp add: split_beta)

declare map_views.simps(2) [simp del]

lemma map_views_frame:
  "views (snd (map_views (view_callback w h old) vs s)) = views s
   \<and> width (snd (map_views (view_callback w h old) vs s)) = width s
   \<and> height (snd (map_views (view_callback w h old) vs s)) = height s
   \<and> viewState (snd (map_views (view_callback w h old) vs s)) = viewState s
   \<and> priv_viewports (snd (map_views (view_callback w h old) vs s)) = priv_viewports s
   \<and> priv_viewportMap (snd (map_views (view_callback w h old) vs s)) = priv_viewportMap s
   \<and> priv_needsRedraw (snd (map_views (view_callback w h old) vs s)) = priv_needsRedraw s
   \<and> priv_needsUpdate (snd (map_views (view_callback w h old) vs s)) = priv_needsUpdate s
   \<and> priv_eventManager (snd (map_views (view_callback w h old) vs s)) = priv_eventManager s
   \<and> priv_onViewStateChange (snd (map_views (view_callback w h old) vs s))
       = priv_onViewStateChange s
   \<and> priv_onInteractiveStateChange (snd (map_views (view_callback w h old) vs s))
       = priv_onInteractiveStateChange s"
proof (induction vs arbitrary: s)
  case Nil
  show ?case by simp
next
  case (Cons v rest)
  show ?case
    by (simp only: map_views_Cons snd_conv Cons.IH view_callback_frame)
qed

lemma map_views_length: "length (fst (map_views f vs s)) = length vs"
  by (induction vs arbitrary: s) simp_all

lemma finalize_unused_frame:
  "finalize_unused ks old s =
     s\<lparr>trace := trace s @
          concat (map (\<lambda>k. if map_of (controllers s) k = None
                            then (case map_of old k of Some c \<Rightarrow> [ControllerFinalize c] | None \<Rightarrow> [])
                            else []) ks)\<rparr>"
proof (induction ks arbitrary: s)
  case Nil
  show ?case by simp
next
  case (Cons k ks)
  show ?case
    by (simp add: Cons.IH split: option.split)
qed


lemma rebuild_falsy:
  "\<not> truthy (priv_needsUpdate s) \<Longrightarrow> priv_rebuildViewportsFromViews s = s"
  by (simp add: priv_rebuildViewportsFromViews_def)

lemma rebuild_truthy:
  "truthy (priv_needsUpdate s) \<Longrightarrow>
   priv_rebuildViewportsFromViews s =
     (let r = map_views (view_callback (width s) (height s) (controllers s)) (views s)
                (s\<lparr>controllers := []\<rparr>)
      in (priv_buildViewportMap
            (finalize_unused (map fst (controllers s)) (controllers s)
               ((snd r)\<lparr>priv_viewports := fst r\<rparr>)))\<lparr>priv_needsUpdate := JBool False\<rparr>)"
  by (simp add: priv_rebuildViewportsFromViews_def Let_def split_beta)

lemma rebuild_fields:
  "views (priv_rebuildViewportsFromViews s) = views s
   \<and> width (priv_rebuildViewportsFromViews s) = width s
   \<and> height (priv_rebuildViewportsFromViews s) = height s
   \<and> viewState (priv_rebuildViewportsFromViews s) = viewState s
   \<and> priv_needsRedraw (priv_rebuildViewportsFromViews s) = priv_needsRedraw s"
proof (cases "truthy (priv_needsUpdate s)")
  case False
  then show ?thesis by (simp add: rebuild_falsy)
next
  case True
  then show ?thesis
    by (simp add: rebuild_truthy Let_def priv_buildViewportMap_def finalize_unused_frame
        map_views_frame)
qed

lemma rebuild_viewports:
  "truthy (priv_needsUpdate s) \<Longrightarrow>
   priv_viewports (priv_rebuildViewportsFromViews s) =
     fst (map_views (view_callback (width s) (height s) (controllers s)) (views s)
            (s\<lparr>controllers := []\<rparr>))"
  by (simp add: rebuild_truthy Let_def priv_buildViewportMap_def finalize_unused_frame)

lemma rebuild_needsUpdate: "\<not> truthy (priv_needsUpdate (priv_rebuildViewportsFromViews s))"
proof (cases "truthy (priv_needsUpdate s)")
  case False
  then show ?thesis by (simp add: rebuild_falsy)
next
  case True
  then show ?thesis by (simp add: rebuild_truthy Let_def)
qed

lemma rebuild_count:
  assumes "count_inv s"
  shows "length (priv_viewports (priv_rebuildViewportsFromViews s))
         = length (views (priv_rebuildViewportsFromViews s))"
proof (cases "truthy (priv_needsUpdate s)")
  case False
  with assms show ?thesis by (simp add: rebuild_falsy count_inv_def)
next
  case True
  then show ?thesis by (simp add: rebuild_viewports rebuild_fields map_views_length)
qed

section \<open>The setters\<close>

lemma setNeedsUpdate_fields:
  "views (setNeedsUpdate r s) = views s \<and> width (setNeedsUpdate r s) = width s
   \<and> height (setNeedsUpdate r s) = height s \<and> viewState (setNeedsUpdate r s) = viewState s
   \<and> controllers (setNeedsUpdate r s) = controllers s
   \<and> priv_viewports (setNeedsUpdate r s) = priv_viewports s
   \<and> priv_viewportMap (setNeedsUpdate r s) = priv_viewportMap s
   \<and> next_ref (setNeedsUpdate r s) = next_ref s \<and> trace (setNeedsUpdate r s) = trace s"
  by (simp add: setNeedsUpdate_def)

lemma setNeedsUpdate_truthy:
  "truthy r \<Longrightarrow> truthy (priv_needsUpdate (setNeedsUpdate r s))"
  by (simp add: setNeedsUpdate_def js_or_def)

lemma setNeedsUpdate_redraw_sticky:
  "truthy (priv_needsRedraw s) \<Longrightarrow> priv_needsRedraw (setNeedsUpdate r s) = priv_needsRedraw s"
  by (simp add: setNeedsUpdate_def js_or_def)

lemma setViews_redraw_sticky:
  "truthy (priv_needsRedraw s) \<Longrightarrow> priv_needsRedraw (priv_setViews I v s) = priv_needsRedraw s"
  by (simp add: priv_setViews_def Let_def setNeedsUpdate_redraw_sticky)

lemma setViewState_redraw_sticky:
  "truthy (priv_needsRedraw s) \<Longrightarrow> priv_needsRedraw (priv_setViewState I v s) = priv_needsRedraw s"
  by (simp add: priv_setViewState_def Let_def setNeedsUpdate_redraw_sticky)

lemma setSize_redraw_sticky:
  "truthy (priv_needsRedraw s) \<Longrightarrow> priv_setSize w h s = Inr t \<Longrightarrow>
   priv_needsRedraw t = priv_needsRedraw s"
  by (auto simp: priv_setSize_def setNeedsUpdate_def js_or_def split: jsval.splits if_splits)

lemma setProps_redraw_sticky:
  assumes "truthy (priv_needsRedraw s)"
  shows "priv_needsRedraw (snd (setProps I p s)) = priv_needsRedraw s"
proof -
  define s1 where "s1 = (case p_views p of Some v \<Rightarrow> priv_setViews I v s | None \<Rightarrow> s)"
  define s2 where "s2 = (case p_viewState p of Some v \<Rightarrow> priv_setViewState I v s1 | None \<Rightarrow> s1)"
  have r1: "priv_needsRedraw s1 = priv_needsRedraw s"
    using assms by (simp add: s1_def setViews_redraw_sticky split: option.split)
  have r2: "priv_needsRedraw s2 = priv_needsRedraw s"
    using assms r1 by (simp add: s2_def setViewState_redraw_sticky split: option.split)
  have t2: "truthy (priv_needsRedraw s2)" using assms r2 by simp
  show ?thesis
    using r2 setSize_redraw_sticky [OF t2]
    by (auto simp: setProps_def Let_def rebuild_fields s1_def [symmetric] s2_def [symmetric]
        split: sum.splits)
qed

section \<open>C6: needsRedraw is consumed once\<close>

text \<open>
  Claim C6. \<^verbatim>\<open>needsRedraw()\<close> returns the current value of the redraw flag. With the
  default \<^verbatim>\<open>clearRedrawFlags = true\<close> (or an explicit \<^verbatim>\<open>true\<close>) it also resets the flag to
  \<^verbatim>\<open>false\<close>; with \<^verbatim>\<open>clearRedrawFlags = false\<close> it returns the same value and leaves the
  manager as it was. After constructing with
  \<^verbatim>\<open>{width: 800, height: 600, views: [], viewState: {}}\<close>, whatever the imported modules,
  the event manager and the callbacks are, the constructor returns, the first
  \<^verbatim>\<open>needsRedraw()\<close> returns \<^verbatim>\<open>'Initial render'\<close> and the second returns \<^verbatim>\<open>false\<close>.
\<close>

theorem needsRedraw_one_shot:
  "needsRedraw None s = (priv_needsRedraw s, s\<lparr>priv_needsRedraw := JBool False\<rparr>)
   \<and> needsRedraw (Some True) s = (priv_needsRedraw s, s\<lparr>priv_needsRedraw := JBool False\<rparr>)
   \<and> needsRedraw (Some False) s = (priv_needsRedraw s, s)
   \<and> (let p = \<lparr>p_views = Some (Array []), p_viewState = Some (JObj []),
                 p_width = Some (JNum 800), p_height = Some (JNum 600),
                 p_eventManager = em, p_onViewStateChange = cb1,
                 p_onInteractiveStateChange = cb2\<rparr>;
           m0 = snd (new_ViewManager I p);
           first = needsRedraw None m0;
           second = needsRedraw None (snd first)
       in fst (new_ViewManager I p) = Normal
          \<and> fst first = JStr ''Initial render'' \<and> fst second = JBool False)"
proof -
  have "fst (new_ViewManager I \<lparr>p_views = Some (Array []), p_viewState = Some (JObj []),
                 p_width = Some (JNum 800), p_height = Some (JNum 600),
                 p_eventManager = em, p_onViewStateChange = cb1,
                 p_onInteractiveStateChange = cb2\<rparr>) = Normal"
    by (simp add: new_ViewManager_def setProps_def Let_def priv_setSize_def)
  moreover have "priv_needsRedraw (snd (new_ViewManager I p)) = JStr ''Initial render''" for p
    unfolding new_ViewManager_def by (subst setProps_redraw_sticky) simp_all
  ultimately show ?thesis
    by (simp add: needsRedraw_def Let_def)
qed

theorem needsRedraw_one_shot_witness:
  "fst (needsRedraw None ex_ab) = JStr ''Initial render''
   \<and> fst (needsRedraw (Some False) ex_ab) = JStr ''Initial render''
   \<and> snd (needsRedraw (Some False) ex_ab) = ex_ab
   \<and> fst (needsRedraw None (snd (needsRedraw None ex_ab))) = JBool False"
proof -
  have "priv_needsRedraw ex_ab = JStr ''Initial render''"
    unfolding ex_ab_def new_ViewManager_def by (subst setProps_redraw_sticky) simp_all
  then show ?thesis
    using needsRedraw_one_shot [of ex_ab]
          needsRedraw_one_shot [of "ex_ab\<lparr>priv_needsRedraw := JBool False\<rparr>"]
    by simp
qed


section \<open>The two reverse scans\<close>

lemma project_loop_find:
  "n \<le> length vps \<Longrightarrow>
   project_loop vps xyz opts n =
     (case find (\<lambda>vp. vp_contains vp xyz opts) (rev (take n vps)) of
        None \<Rightarrow> JNull | Some vp \<Rightarrow> vp_project vp xyz opts)"
proof (induction n)
  case 0
  show ?case by simp
next
  case (Suc n)
  then have "take (Suc n) vps = take n vps @ [vps ! n]"
    by (simp add: take_Suc_conv_app_nth)
  with Suc show ?case by (simp add: Let_def)
qed

lemma unproject_loop_find:
  "n \<le> length vps \<Longrightarrow>
   unproject_loop vps xyz opts n =
     (case find (\<lambda>vp. vp_containsPixel vp xyz opts) (rev (take n vps)) of
        None \<Rightarrow> JNull | Some vp \<Rightarrow> vp_unproject vp xyz)"
proof (induction n)
  case 0
  show ?case by simp
next
  case (Suc n)
  then have "take (Suc n) vps = take n vps @ [vps ! n]"
    by (simp add: take_Suc_conv_app_nth)
  with Suc show ?case by (simp add: Let_def)
qed

lemma find_None_all: "(\<forall>x \<in> set xs. \<not> P x) \<Longrightarrow> find P (rev xs) = None"
  by (simp add: find_None_iff)

lemmas run_defs = new_ViewManager_def setProps_def priv_setViews_def wrapped_views_def
  priv_diffViews_def
  priv_setViewState_def priv_setSize_def setNeedsUpdate_def js_or_def
  priv_rebuildViewportsFromViews_def view_callback_def getViewState_def controllerProps_def
  priv_createController_def priv_buildViewportMap_def assign_def assign_one_def Let_def

lemma ex_ab_viewports:
  "priv_viewports ex_ab = [ex_viewport ''a'' 100 100, ex_viewport ''b'' 100 100]"
  by (simp add: ex_ab_def ex_modules_def ex_props_def ex_view_def run_defs)

lemma ex_empty_viewports:
  "priv_viewports (snd (new_ViewManager ex_modules ex_props)) = []"
  by (simp add: ex_modules_def ex_props_def run_defs)

section \<open>C4: the last declared viewport wins\<close>

text \<open>
  Claim C4. \<^verbatim>\<open>project\<close> and \<^verbatim>\<open>unproject\<close> scan the viewports in reverse declared order
  and answer with the first viewport of that order that contains the point (\<^verbatim>\<open>contains\<close>
  for \<^verbatim>\<open>project\<close>, \<^verbatim>\<open>containsPixel\<close> for \<^verbatim>\<open>unproject\<close>); when no viewport contains the
  point the answer is \<^verbatim>\<open>null\<close>. With two viewports \<^verbatim>\<open>[v1, v2]\<close> that both contain the
  point, the answer is that of \<^verbatim>\<open>v2\<close>.
\<close>

theorem z_order_resolution:
  "project xyz opts s =
     (case find (\<lambda>vp. vp_contains vp xyz (project_opts opts)) (rev (getViewports JUndefined s)) of
        None \<Rightarrow> JNull | Some vp \<Rightarrow> vp_project vp xyz (project_opts opts))
   \<and> unproject xyz opts s =
     (case find (\<lambda>vp. vp_containsPixel vp xyz opts) (rev (getViewports JUndefined s)) of
        None \<Rightarrow> JNull | Some vp \<Rightarrow> vp_unproject vp xyz)
   \<and> ((\<forall>vp \<in> set (getViewports JUndefined s). \<not> vp_contains vp xyz (project_opts opts))
        \<longrightarrow> project xyz opts s = JNull)
   \<and> ((\<forall>vp \<in> set (getViewports JUndefined s). \<not> vp_containsPixel vp xyz opts)
        \<longrightarrow> unproject xyz opts s = JNull)
   \<and> (getViewports JUndefined s = [v1, v2]
        \<and> vp_contains v1 xyz (project_opts opts) \<and> vp_contains v2 xyz (project_opts opts)
        \<longrightarrow> project xyz opts s = vp_project v2 xyz (project_opts opts))
   \<and> (getViewports JUndefined s = [v1, v2]
        \<and> vp_containsPixel v1 xyz opts \<and> vp_containsPixel v2 xyz opts
        \<longrightarrow> unproject xyz opts s = vp_unproject v2 xyz)"
proof -
  have p: "project xyz opts s =
     (case find (\<lambda>vp. vp_contains vp xyz (project_opts opts)) (rev (getViewports JUndefined s)) of
        None \<Rightarrow> JNull | Some vp \<Rightarrow> vp_project vp xyz (project_opts opts))"
    by (simp add: project_def Let_def project_loop_find)
  have u: "unproject xyz opts s =
     (case find (\<lambda>vp. vp_containsPixel vp xyz opts) (rev (getViewports JUndefined s)) of
        None \<Rightarrow> JNull | Some vp \<Rightarrow> vp_unproject vp xyz)"
    by (simp add: unproject_def Let_def unproject_loop_find)
  have pn: "project xyz opts s = JNull"
    if "\<forall>vp \<in> set (getViewports JUndefined s). \<not> vp_contains vp xyz (project_opts opts)"
    using that by (simp add: p find_None_all)
  have un: "unproject xyz opts s = JNull"
    if "\<forall>vp \<in> set (getViewports JUndefined s). \<not> vp_containsPixel vp xyz opts"
    using that by (simp add: u find_None_all)
  have p2: "project xyz opts s = vp_project v2 xyz (project_opts opts)"
    if "getViewports JUndefined s = [v1, v2]" "vp_contains v2 xyz (project_opts opts)"
    using that by (simp add: p)
  have u2: "unproject xyz opts s = vp_unproject v2 xyz"
    if "getViewports JUndefined s = [v1, v2]" "vp_containsPixel v2 xyz opts"
    using that by (simp add: u)
  from p u pn un p2 u2 show ?thesis by blast
qed

theorem z_order_resolution_witness:
  "getViewports JUndefined ex_ab = [ex_viewport ''a'' 100 100, ex_viewport ''b'' 100 100]
   \<and> vp_contains (ex_viewport ''a'' 100 100) (JStr ''P'') (project_opts JUndefined)
   \<and> vp_contains (ex_viewport ''b'' 100 100) (JStr ''P'') (project_opts JUndefined)
   \<and> vp_containsPixel (ex_viewport ''a'' 100 100) (JStr ''P'') JUndefined
   \<and> vp_containsPixel (ex_viewport ''b'' 100 100) (JStr ''P'') JUndefined
   \<and> project (JStr ''P'') JUndefined ex_ab = JStr ''b''
   \<and> unproject (JStr ''P'') JUndefined ex_ab = JStr ''b''
   \<and> getViewports JUndefined (snd (new_ViewManager ex_modules ex_props)) = []
   \<and> project (JStr ''P'') JUndefined (snd (new_ViewManager ex_modules ex_props)) = JNull
   \<and> unproject (JStr ''P'') JUndefined (snd (new_ViewManager ex_modules ex_props)) = JNull"
proof -
  have g: "getViewports JUndefined ex_ab = [ex_viewport ''a'' 100 100, ex_viewport ''b'' 100 100]"
    by (simp add: getViewports_def ex_ab_viewports)
  have c: "vp_contains (ex_viewport i 100 100) (JStr ''P'') (project_opts JUndefined)"
          "vp_containsPixel (ex_viewport i 100 100) (JStr ''P'') JUndefined" for i
    by (simp_all add: ex_viewport_def)
  have e: "getViewports JUndefined (snd (new_ViewManager ex_modules ex_props)) = []"
    by (simp add: getViewports_def ex_empty_viewports)
  have v: "vp_project (ex_viewport ''b'' 100 100) (JStr ''P'') (project_opts JUndefined) = JStr ''b''"
          "vp_unproject (ex_viewport ''b'' 100 100) (JStr ''P'') = JStr ''b''"
    by (simp_all add: ex_viewport_def)
  show ?thesis
    using z_order_resolution [of "JStr ''P''" JUndefined ex_ab
            "ex_viewport ''a'' 100 100" "ex_viewport ''b'' 100 100"]
          z_order_resolution [of "JStr ''P''" JUndefined "snd (new_ViewManager ex_modules ex_props)"]
          g c e v
    by simp
qed

section \<open>C7: the dirty flags are sticky\<close>

lemma run_calls_redraw_sticky:
  "truthy (priv_needsRedraw s) \<Longrightarrow> priv_needsRedraw (run_calls cs s) = priv_needsRedraw s"
proof (induction cs arbitrary: s)
  case Nil
  then show ?case by simp
next
  case (Cons c cs)
  show ?case
  proof (cases c)
    case (SetNeedsRedraw reason)
    have "priv_needsRedraw (setNeedsRedraw reason s) = priv_needsRedraw s"
      using Cons.prems by (simp add: setNeedsRedraw_def js_or_truthy)
    with Cons SetNeedsRedraw show ?thesis by simp
  next
    case (SetNeedsUpdate reason)
    have "priv_needsRedraw (setNeedsUpdate reason s) = priv_needsRedraw s"
      using Cons.prems by (simp add: setNeedsUpdate_def js_or_truthy)
    with Cons SetNeedsUpdate show ?thesis by simp
  qed
qed

lemma run_calls_update_sticky:
  "truthy (priv_needsUpdate s) \<Longrightarrow> priv_needsUpdate (run_calls cs s) = priv_needsUpdate s"
proof (induction cs arbitrary: s)
  case Nil
  then show ?case by simp
next
  case (Cons c cs)
  show ?case
  proof (cases c)
    case (SetNeedsRedraw reason)
    have "priv_needsUpdate (setNeedsRedraw reason s) = priv_needsUpdate s"
      by (simp add: setNeedsRedraw_def)
    with Cons SetNeedsRedraw show ?thesis by simp
  next
    case (SetNeedsUpdate reason)
    have "priv_needsUpdate (setNeedsUpdate reason s) = priv_needsUpdate s"
      using Cons.prems by (simp add: setNeedsUpdate_def js_or_truthy)
    with Cons SetNeedsUpdate show ?thesis by simp
  qed
qed

text \<open>
  Claim C7. A flag that holds a reason (a non-empty string, which is a truthy value) keeps
  it through every sequence of \<^verbatim>\<open>setNeedsRedraw\<close> and \<^verbatim>\<open>setNeedsUpdate\<close> calls, whatever
  reasons they carry. A \<^verbatim>\<open>setNeedsUpdate(reason)\<close> on a flag that is not set stores the
  reason, in the update flag and in the redraw flag alike, and so does \<^verbatim>\<open>setNeedsRedraw\<close>
  for the redraw flag; after \<^verbatim>\<open>setNeedsUpdate\<close> with a truthy reason the redraw flag is
  raised.
\<close>

theorem sticky_dirty_flags:
  "(priv_needsRedraw s = JStr r \<and> r \<noteq> []
      \<longrightarrow> priv_needsRedraw (run_calls cs s) = JStr r)
   \<and> (priv_needsUpdate s = JStr r \<and> r \<noteq> []
      \<longrightarrow> priv_needsUpdate (run_calls cs s) = JStr r)
   \<and> (truthy (priv_needsRedraw s) \<longrightarrow> priv_needsRedraw (run_calls cs s) = priv_needsRedraw s)
   \<and> (truthy (priv_needsUpdate s) \<longrightarrow> priv_needsUpdate (run_calls cs s) = priv_needsUpdate s)
   \<and> (\<not> truthy (priv_needsUpdate s) \<longrightarrow> priv_needsUpdate (setNeedsUpdate reason s) = reason)
   \<and> (\<not> truthy (priv_needsRedraw s) \<longrightarrow> priv_needsRedraw (setNeedsUpdate reason s) = reason)
   \<and> (\<not> truthy (priv_needsRedraw s) \<longrightarrow> priv_needsRedraw (setNeedsRedraw reason s) = reason)
   \<and> (truthy reason \<longrightarrow> truthy (priv_needsRedraw (setNeedsUpdate reason s)))"
proof -
  have "priv_needsRedraw (run_calls cs s) = JStr r" if "priv_needsRedraw s = JStr r" "r \<noteq> []"
    using run_calls_redraw_sticky [of s cs] that by simp
  moreover have "priv_needsUpdate (run_calls cs s) = JStr r"
    if "priv_needsUpdate s = JStr r" "r \<noteq> []"
    using run_calls_update_sticky [of s cs] that by simp
  ultimately show ?thesis
    using run_calls_redraw_sticky [of s cs] run_calls_update_sticky [of s cs]
    by (simp add: setNeedsUpdate_def setNeedsRedraw_def js_or_def)
qed

theorem sticky_dirty_flags_witness:
  "priv_needsRedraw (setNeedsUpdate (JStr ''first'') (snd (needsRedraw None ex_ab))) = JStr ''first''
   \<and> priv_needsUpdate (setNeedsUpdate (JStr ''first'') (snd (needsRedraw None ex_ab))) = JStr ''first''
   \<and> priv_needsRedraw
        (run_calls [SetNeedsRedraw (JStr ''second''), SetNeedsUpdate (JStr ''third'')]
           (setNeedsUpdate (JStr ''first'') (snd (needsRedraw None ex_ab)))) = JStr ''first''
   \<and> priv_needsUpdate
        (run_calls [SetNeedsRedraw (JStr ''second''), SetNeedsUpdate (JStr ''third'')]
           (setNeedsUpdate (JStr ''first'') (snd (needsRedraw None ex_ab)))) = JStr ''first''"
proof -
  have u: "\<not> truthy (priv_needsUpdate (snd (needsRedraw None ex_ab)))"
    by (simp add: needsRedraw_def ex_ab_def ex_props_def new_ViewManager_def setProps_def
        Let_def rebuild_needsUpdate)
  have r: "\<not> truthy (priv_needsRedraw (snd (needsRedraw None ex_ab)))"
    by (simp add: needsRedraw_def)
  have f: "priv_needsRedraw (setNeedsUpdate (JStr ''first'') (snd (needsRedraw None ex_ab)))
             = JStr ''first''"
          "priv_needsUpdate (setNeedsUpdate (JStr ''first'') (snd (needsRedraw None ex_ab)))
             = JStr ''first''"
    using sticky_dirty_flags [of "snd (needsRedraw None ex_ab)" _ _ "JStr ''first''"] u r
    by simp_all
  show ?thesis
    using f sticky_dirty_flags
            [of "setNeedsUpdate (JStr ''first'') (snd (needsRedraw None ex_ab))" "''first''"
                "[SetNeedsRedraw (JStr ''second''), SetNeedsUpdate (JStr ''third'')]"
                "JStr ''first''"]
    by simp
qed

section \<open>The shape of setProps\<close>

lemma setProps_unfold:
  "setProps I p s =
     (if p_width p \<noteq> None \<or> p_height p \<noteq> None then
        (case priv_setSize (read_key (p_width p)) (read_key (p_height p)) (after_setters I p s) of
           Inl e \<Rightarrow> (Throw e, after_setters I p s)
         | Inr s3 \<Rightarrow> (Normal, priv_rebuildViewportsFromViews s3))
      else (Normal, priv_rebuildViewportsFromViews (after_setters I p s)))"
  unfolding setProps_def after_setters_def Let_def by (rule refl)

lemma setProps_cases [consumes 1, case_names no_size sized threw]:
  assumes "setProps I p s = (r, t)"
    and "p_width p = None \<Longrightarrow> p_height p = None
            \<Longrightarrow> r = Normal \<Longrightarrow> t = priv_rebuildViewportsFromViews (after_setters I p s) \<Longrightarrow> P"
    and "\<And>s3. priv_setSize (read_key (p_width p)) (read_key (p_height p)) (after_setters I p s) = Inr s3
            \<Longrightarrow> r = Normal \<Longrightarrow> t = priv_rebuildViewportsFromViews s3 \<Longrightarrow> P"
    and "\<And>e. priv_setSize (read_key (p_width p)) (read_key (p_height p)) (after_setters I p s) = Inl e
            \<Longrightarrow> r = Throw e \<Longrightarrow> t = after_setters I p s \<Longrightarrow> P"
  shows P
proof (cases "p_width p \<noteq> None \<or> p_height p \<noteq> None")
  case False
  with assms(1) have "r = Normal" "t = priv_rebuildViewportsFromViews (after_setters I p s)"
    by (simp_all add: setProps_unfold)
  with False assms(2) show ?thesis by simp
next
  case True
  show ?thesis
  proof (cases "priv_setSize (read_key (p_width p)) (read_key (p_height p)) (after_setters I p s)")
    case (Inl e)
    with True assms(1) have "r = Throw e" "t = after_setters I p s"
      by (simp_all add: setProps_unfold)
    with Inl assms(4) show ?thesis by simp
  next
    case (Inr s3)
    with True assms(1) have "r = Normal" "t = priv_rebuildViewportsFromViews s3"
      by (simp_all add: setProps_unfold)
    with Inr assms(3) show ?thesis by simp
  qed
qed

lemma after_setters_preserves:
  assumes "Q s"
    and "\<And>v s. Q s \<Longrightarrow> Q (priv_setViews I v s)"
    and "\<And>v s. Q s \<Longrightarrow> Q (priv_setViewState I v s)"
  shows "Q (after_setters I p s)"
  using assms by (simp add: after_setters_def Let_def split: option.split)

lemma setProps_preserves:
  assumes "Q s"
    and "\<And>v s. Q s \<Longrightarrow> Q (priv_setViews I v s)"
    and "\<And>v s. Q s \<Longrightarrow> Q (priv_setViewState I v s)"
    and "\<And>w h s t. Q s \<Longrightarrow> priv_setSize w h s = Inr t \<Longrightarrow> Q t"
    and "\<And>s. Q s \<Longrightarrow> Q (priv_rebuildViewportsFromViews s)"
  shows "Q (snd (setProps I p s))"
proof -
  obtain r t where rt: "setProps I p s = (r, t)" by (cases "setProps I p s")
  have q2: "Q (after_setters I p s)"
    using assms(1-3) by (rule after_setters_preserves)
  from rt have "Q t"
  proof (cases rule: setProps_cases)
    case no_size
    with q2 assms(5) show ?thesis by simp
  next
    case (sized s3)
    with q2 assms(4,5) show ?thesis by blast
  next
    case (threw e)
    with q2 show ?thesis by simp
  qed
  with rt show ?thesis by simp
qed

section \<open>One viewport per view\<close>

lemma setNeedsUpdate_keeps_truthy:
  "truthy (priv_needsUpdate s) \<Longrightarrow> truthy (priv_needsUpdate (setNeedsUpdate r s))"
  by (simp add: setNeedsUpdate_def js_or_def)

lemma diffViews_False_length:
  "\<not> priv_diffViews I new old \<Longrightarrow> length new = length old"
  by (simp add: priv_diffViews_def split: if_splits)

lemma setViews_count: "count_inv s \<Longrightarrow> count_inv (priv_setViews I v s)"
proof (cases "priv_diffViews I (wrapped_views I v) (views s)")
  case True
  then show ?thesis
    by (simp add: priv_setViews_def Let_def count_inv_def setNeedsUpdate_truthy)
next
  case False
  assume "count_inv s"
  with False diffViews_False_length [OF False] show ?thesis
    by (simp add: priv_setViews_def Let_def count_inv_def)
qed

lemma setViewState_count: "count_inv s \<Longrightarrow> count_inv (priv_setViewState I v s)"
  by (auto simp: priv_setViewState_def Let_def count_inv_def setNeedsUpdate_fields
      setNeedsUpdate_keeps_truthy)

lemma setSize_count: "count_inv s \<Longrightarrow> priv_setSize w h s = Inr t \<Longrightarrow> count_inv t"
  by (auto simp: priv_setSize_def count_inv_def setNeedsUpdate_def js_or_def
      split: jsval.splits if_splits)

lemma rebuild_count_inv: "count_inv s \<Longrightarrow> count_inv (priv_rebuildViewportsFromViews s)"
  using rebuild_count [of s] by (simp add: count_inv_def)

lemma setProps_count_inv: "count_inv s \<Longrightarrow> count_inv (snd (setProps I p s))"
  by (rule setProps_preserves [where Q = count_inv])
     (simp_all add: setViews_count setViewState_count setSize_count rebuild_count_inv)

lemma initial_count_inv:
  "count_inv \<lparr>views = [], width = 100, height = 100, viewState = JObj [], controllers = [],
        priv_viewports = [], priv_viewportMap = [],
        priv_needsRedraw = JStr ''Initial render'', priv_needsUpdate = JBool True,
        priv_eventManager = a, priv_onViewStateChange = b,
        priv_onInteractiveStateChange = c, next_ref = 0, trace = []\<rparr>"
  by (simp add: count_inv_def)

lemma reachable_count_inv: "reachable I s \<Longrightarrow> count_inv s"
proof (induction rule: reachable.induct)
  case (r_new props s)
  have "count_inv (snd (new_ViewManager I props))"
    unfolding new_ViewManager_def by (rule setProps_count_inv) (rule initial_count_inv)
  with r_new show ?case by simp
next
  case (r_setProps s props r t)
  from setProps_count_inv [OF r_setProps.IH, of I props] r_setProps.hyps(2)
  show ?case by simp
next
  case (r_needsRedraw s opt v t)
  then show ?case by (auto simp: needsRedraw_def count_inv_def Let_def split: if_splits)
next
  case (r_setNeedsRedraw s reason)
  then show ?case by (simp add: setNeedsRedraw_def count_inv_def)
next
  case (r_setNeedsUpdate s reason)
  then show ?case
    by (auto simp: count_inv_def setNeedsUpdate_fields setNeedsUpdate_keeps_truthy)
next
  case (r_finalize s)
  then show ?case by (simp add: finalize_def count_inv_def)
qed

lemma setProps_Normal_count:
  assumes "count_inv s" and "setProps I p s = (Normal, t)"
  shows "length (priv_viewports t) = length (views t)"
proof -
  have q2: "count_inv (after_setters I p s)"
    using assms(1) by (rule after_setters_preserves) (simp_all add: setViews_count setViewState_count)
  from assms(2) show ?thesis
  proof (cases rule: setProps_cases)
    case no_size
    with q2 rebuild_count [of "after_setters I p s"] show ?thesis by simp
  next
    case (sized s3)
    with q2 have "count_inv s3" by (blast intro: setSize_count)
    with sized rebuild_count [of s3] show ?thesis by simp
  next
    case (threw e)
    then show ?thesis by simp
  qed
qed

section \<open>C3: one viewport per view\<close>

text \<open>
  Claim C3. Whenever \<^verbatim>\<open>setProps\<close> returns on a manager that a caller can hold, and
  whenever the constructor returns, \<^verbatim>\<open>getViewports()\<close> without a filter has as many
  elements as the current view list.
\<close>

theorem count_invariant:
  "(reachable I s \<and> setProps I p s = (Normal, t)
      \<longrightarrow> length (getViewports JUndefined t) = length (views t))
   \<and> (new_ViewManager I p = (Normal, t)
      \<longrightarrow> length (getViewports JUndefined t) = length (views t))"
proof -
  have "length (getViewports JUndefined t) = length (views t)"
    if "reachable I s" "setProps I p s = (Normal, t)"
    using setProps_Normal_count [OF reachable_count_inv [OF that(1)] that(2)]
    by (simp add: getViewports_def)
  moreover have "length (getViewports JUndefined t) = length (views t)"
    if "new_ViewManager I p = (Normal, t)"
    using setProps_Normal_count [OF initial_count_inv] that
    unfolding new_ViewManager_def by (simp add: getViewports_def)
  ultimately show ?thesis by blast
qed


lemma setProps_no_size_Normal:
  "p_width p = None \<Longrightarrow> p_height p = None \<Longrightarrow> fst (setProps I p s) = Normal"
  by (simp add: setProps_unfold)

lemma reachable_ex_ab: "reachable ex_modules ex_ab"
proof -
  let ?p = "ex_props\<lparr>p_views := Some (Array [IsView (ex_view ''a''), IsView (ex_view ''b'')])\<rparr>"
  have "fst (new_ViewManager ex_modules ?p) = Normal"
    unfolding new_ViewManager_def by (rule setProps_no_size_Normal) (simp_all add: ex_props_def)
  then have "new_ViewManager ex_modules ?p = (Normal, ex_ab)"
    by (simp add: ex_ab_def prod_eq_iff)
  then show ?thesis by (rule r_new)
qed

theorem count_invariant_witness:
  "reachable ex_modules ex_ab
   \<and> setProps ex_modules (ex_props\<lparr>p_views := Some (Array [IsView (ex_view ''a'')])\<rparr>) ex_ab
       = (Normal, snd (setProps ex_modules
                         (ex_props\<lparr>p_views := Some (Array [IsView (ex_view ''a'')])\<rparr>) ex_ab))
   \<and> length (getViewports JUndefined
         (snd (setProps ex_modules (ex_props\<lparr>p_views := Some (Array [IsView (ex_view ''a'')])\<rparr>) ex_ab)))
     = length (views
         (snd (setProps ex_modules (ex_props\<lparr>p_views := Some (Array [IsView (ex_view ''a'')])\<rparr>) ex_ab)))
   \<and> new_ViewManager ex_modules
         (ex_props\<lparr>p_views := Some (Array [IsView (ex_view ''a''), IsView (ex_view ''b'')])\<rparr>)
       = (Normal, ex_ab)
   \<and> length (getViewports JUndefined ex_ab) = length (views ex_ab)"
proof -
  let ?p = "ex_props\<lparr>p_views := Some (Array [IsView (ex_view ''a'')])\<rparr>"
  let ?q = "ex_props\<lparr>p_views := Some (Array [IsView (ex_view ''a''), IsView (ex_view ''b'')])\<rparr>"
  have "fst (setProps ex_modules ?p ex_ab) = Normal"
    by (rule setProps_no_size_Normal) (simp_all add: ex_props_def)
  then have n: "setProps ex_modules ?p ex_ab = (Normal, snd (setProps ex_modules ?p ex_ab))"
    by (simp add: prod_eq_iff)
  have "fst (new_ViewManager ex_modules ?q) = Normal"
    unfolding new_ViewManager_def by (rule setProps_no_size_Normal) (simp_all add: ex_props_def)
  then have m: "new_ViewManager ex_modules ?q = (Normal, ex_ab)"
    by (simp add: ex_ab_def prod_eq_iff)
  show ?thesis
    using count_invariant [of ex_modules ex_ab ?p "snd (setProps ex_modules ?p ex_ab)"]
          count_invariant [of ex_modules ex_ab ?q ex_ab]
          reachable_ex_ab n m
    by simp
qed

section \<open>Which keys write which fields\<close>

lemma setViews_fields:
  "views (priv_setViews I v s) = wrapped_views I v
   \<and> width (priv_setViews I v s) = width s \<and> height (priv_setViews I v s) = height s
   \<and> viewState (priv_setViews I v s) = viewState s
   \<and> controllers (priv_setViews I v s) = controllers s
   \<and> priv_viewports (priv_setViews I v s) = priv_viewports s
   \<and> priv_viewportMap (priv_setViews I v s) = priv_viewportMap s
   \<and> next_ref (priv_setViews I v s) = next_ref s \<and> trace (priv_setViews I v s) = trace s"
  by (simp add: priv_setViews_def Let_def setNeedsUpdate_fields)








section \<open>C9: which keys setProps needs\<close>




section \<open>Object.assign\<close>










section \<open>The calls of the view callback\<close>









section \<open>The controller map that the callback builds\<close>












section \<open>The invariant of the controller map\<close>









section \<open>The calls of the disposal loop\<close>





section \<open>The calls of a whole rebuild\<close>











section \<open>C2: controllers of vanished views are finalized once\<close>



lemma ex_ab_fields:
  "controllers ex_ab = [(''a'', 0), (''b'', 1)]"
  "next_ref ex_ab = 2"
  "views ex_ab = [ex_view ''a'', ex_view ''b'']"
  "width ex_ab = 100" "height ex_ab = 100"
  "viewState ex_ab = JObj []"
  "priv_needsUpdate ex_ab = JBool False"
  by (simp_all add: ex_ab_def ex_modules_def ex_props_def run_defs, simp_all add: ex_view_def)



section \<open>The trace only grows\<close>






section \<open>C1: a controller survives a resize\<close>




section \<open>The view state setter\<close>



section \<open>C8: a falsy view state is rejected\<close>



section \<open>The comparison of two view lists\<close>

lemma diffViews_iff:
  "priv_diffViews I new old
   = (length new \<noteq> length old \<or> (\<exists>i < length new. \<not> View_equals I (new ! i) (old ! i)))"
  by (auto simp: priv_diffViews_def list_ex_iff)

section \<open>C5: an equal view list raises nothing\<close>

text \<open>
  Claim C5. \<^verbatim>\<open>_setViews\<close> stores the flattened, filtered and wrapped sequence. When it
  has the length of the previous list and every element \<^verbatim>\<open>equals\<close> the previous element
  at its index, nothing but the view list changes: the flags are as before. If moreover
  no update was pending, a \<^verbatim>\<open>setProps\<close> with these views alone returns with that state:
  no rebuild, no call on any controller. With another length, or with a pair at some
  index that is not equal, the update flag is raised with the reason
  \<^verbatim>\<open>'views changed'\<close> (unless it held a reason already).
\<close>

theorem view_list_short_circuit:
  "views (priv_setViews I input s) = wrapped_views I input
   \<and> (length (wrapped_views I input) = length (views s)
       \<and> (\<forall>i < length (views s). View_equals I (wrapped_views I input ! i) (views s ! i))
      \<longrightarrow> priv_setViews I input s = s\<lparr>views := wrapped_views I input\<rparr>)
   \<and> (length (wrapped_views I input) = length (views s)
       \<and> (\<forall>i < length (views s). View_equals I (wrapped_views I input ! i) (views s ! i))
       \<and> \<not> truthy (priv_needsUpdate s)
       \<and> p_views p = Some input \<and> p_viewState p = None \<and> p_width p = None \<and> p_height p = None
      \<longrightarrow> setProps I p s = (Normal, s\<lparr>views := wrapped_views I input\<rparr>))
   \<and> (length (wrapped_views I input) \<noteq> length (views s)
       \<or> (\<exists>i < length (wrapped_views I input).
             \<not> View_equals I (wrapped_views I input ! i) (views s ! i))
      \<longrightarrow> priv_needsUpdate (priv_setViews I input s)
            = js_or (priv_needsUpdate s) (JStr ''views changed'')
          \<and> truthy (priv_needsUpdate (priv_setViews I input s)))"
proof -
  let ?new = "wrapped_views I input"
  have a: "priv_setViews I input s = s\<lparr>views := ?new\<rparr>"
    if "length ?new = length (views s)"
       "\<forall>i < length (views s). View_equals I (?new ! i) (views s ! i)"
  proof -
    from that have "\<not> priv_diffViews I ?new (views s)" by (simp add: diffViews_iff)
    then show ?thesis by (simp add: priv_setViews_def Let_def)
  qed
  have b: "setProps I p s = (Normal, s\<lparr>views := ?new\<rparr>)"
    if "length ?new = length (views s)"
       "\<forall>i < length (views s). View_equals I (?new ! i) (views s ! i)"
       "\<not> truthy (priv_needsUpdate s)"
       "p_views p = Some input" "p_viewState p = None" "p_width p = None" "p_height p = None"
  proof -
    have "after_setters I p s = s\<lparr>views := ?new\<rparr>"
      using that(4,5) a [OF that(1,2)] by (simp add: after_setters_def)
    with that(3,6,7) show ?thesis by (simp add: setProps_unfold rebuild_falsy)
  qed
  have c: "priv_needsUpdate (priv_setViews I input s)
            = js_or (priv_needsUpdate s) (JStr ''views changed'')
          \<and> truthy (priv_needsUpdate (priv_setViews I input s))"
    if "length ?new \<noteq> length (views s)
        \<or> (\<exists>i < length ?new. \<not> View_equals I (?new ! i) (views s ! i))"
  proof -
    from that have "priv_diffViews I ?new (views s)" by (simp add: diffViews_iff)
    then show ?thesis by (simp add: priv_setViews_def Let_def setNeedsUpdate_def js_or_def)
  qed
  have v: "views (priv_setViews I input s) = ?new" by (simp add: setViews_fields)
  from a b c v show ?thesis by blast
qed


theorem view_list_short_circuit_witness:
  "wrapped_views ex_modules (Array [IsView (ex_view ''a''), Array [Falsy, IsView (ex_view ''b'')]])
     = [ex_view ''a'', ex_view ''b'']
   \<and> length (wrapped_views ex_modules
               (Array [IsView (ex_view ''a''), Array [Falsy, IsView (ex_view ''b'')]]))
       = length (views ex_ab)
   \<and> View_equals ex_modules (ex_view ''a'') (views ex_ab ! 0)
   \<and> View_equals ex_modules (ex_view ''b'') (views ex_ab ! 1)
   \<and> \<not> truthy (priv_needsUpdate ex_ab)
   \<and> setProps ex_modules
        (ex_props\<lparr>p_views :=
           Some (Array [IsView (ex_view ''a''), Array [Falsy, IsView (ex_view ''b'')]])\<rparr>) ex_ab
       = (Normal, ex_ab\<lparr>views := [ex_view ''a'', ex_view ''b'']\<rparr>)
   \<and> length (wrapped_views ex_modules (Array [IsView (ex_view ''a'')])) \<noteq> length (views ex_ab)
   \<and> priv_needsUpdate (priv_setViews ex_modules (Array [IsView (ex_view ''a'')]) ex_ab)
       = JStr ''views changed''
   \<and> \<not> View_equals ex_modules (ex_view ''c'') (views ex_ab ! 1)
   \<and> priv_needsUpdate
        (priv_setViews ex_modules (Array [IsView (ex_view ''a''), IsView (ex_view ''c'')]) ex_ab)
       = JStr ''views changed''"
proof -
  let ?same = "Array [IsView (ex_view ''a''), Array [Falsy, IsView (ex_view ''b'')]]"
  let ?p = "ex_props\<lparr>p_views := Some ?same\<rparr>"
  have w: "wrapped_views ex_modules ?same = [ex_view ''a'', ex_view ''b'']"
    "wrapped_views ex_modules (Array [IsView (ex_view ''a'')]) = [ex_view ''a'']"
    "wrapped_views ex_modules (Array [IsView (ex_view ''a''), IsView (ex_view ''c'')])
       = [ex_view ''a'', ex_view ''c'']"
    by (simp_all add: wrapped_views_def)
  have e: "View_equals ex_modules (ex_view ''a'') (ex_view ''a'')"
    "View_equals ex_modules (ex_view ''b'') (ex_view ''b'')"
    "\<not> View_equals ex_modules (ex_view ''c'') (ex_view ''b'')"
    by (simp_all add: ex_modules_def ex_view_def)
  have all: "\<forall>i < length (views ex_ab).
               View_equals ex_modules (wrapped_views ex_modules ?same ! i) (views ex_ab ! i)"
    using e by (simp add: w ex_ab_fields less_Suc_eq numeral_2_eq_2)
  have ex: "\<exists>i < length (wrapped_views ex_modules
                 (Array [IsView (ex_view ''a''), IsView (ex_view ''c'')])).
               \<not> View_equals ex_modules
                   (wrapped_views ex_modules
                      (Array [IsView (ex_view ''a''), IsView (ex_view ''c'')]) ! i)
                   (views ex_ab ! i)"
    using e by (intro exI [of _ 1]) (simp add: w ex_ab_fields)
  show ?thesis
    using view_list_short_circuit [of ex_modules ?same ex_ab ?p]
          view_list_short_circuit [of ex_modules "Array [IsView (ex_view ''a'')]" ex_ab]
          view_list_short_circuit
            [of ex_modules "Array [IsView (ex_view ''a''), IsView (ex_view ''c'')]" ex_ab]
          all ex e
    by (simp add: w ex_ab_fields ex_props_def js_or_def)
qed

section \<open>The id-to-viewport map\<close>




section \<open>C10: the first viewport of an id, and the view state of an id\<close>






end
